theory Spec2Isabelle
  imports Complex_Main "HOL-Library.Sublist"
begin

section \<open>Data model of the listings screen (frontend/app/listings.tsx)\<close>

text \<open>
  JavaScript numbers that are ratings are modelled as rationals: every finite double is a
  rational, and \<open>Math.floor\<close>, \<open>Math.ceil\<close> and \<open>% 1\<close> are exact on doubles. NaN and the
  infinities are outside the model. Page numbers and counts are integers. Strings are
  \<open>string\<close>; the two regular expressions of the screen only distinguish ASCII digits and
  \<open>+\<close> from everything else, so the unit of a string (byte or UTF-16 code unit) does not
  change their result.
\<close>

record Property =
  prop_id :: string
  homestay_name :: string
  prop_location :: string
  prop_sub_location :: string
  google_address :: string
  google_phone :: string
  google_rating :: rat
  number_of_reviews :: int
  google_maps_link :: string
  photo_url :: string
  prop_category :: string
  amenities :: string
  tariff :: string
  source_url :: "string option"
  youtube_video :: "string option"

record APIResponse =
  data_properties :: "Property list"
  data_total :: int
  data_page :: int
  data_per_page :: int
  data_total_pages :: int

record LocationStat =
  loc_location :: string
  loc_count :: int
  loc_sub_locations :: "(string \<times> int) list list"

record FilterState =
  search :: string
  location :: string
  sub_location :: string
  category :: string
  min_rating :: "rat option"
  sort_by :: string

section \<open>renderStars\<close>

datatype glyph = Star | StarHalf | StarOutline

text \<open>The loop \<open>for (let i = a; i < n; i++) stars.push(g)\<close>.\<close>

function push_loop :: "int \<Rightarrow> int \<Rightarrow> glyph \<Rightarrow> glyph list \<Rightarrow> glyph list" where
  "push_loop i n g stars = (if i < n then push_loop (i + 1) n g (stars @ [g]) else stars)"
  by pat_completeness auto
termination
  by (relation "measure (\<lambda>(i, n, g, stars). nat (n - i))") auto

declare push_loop.simps [simp del]

text \<open>JavaScript's \<open>x % 1\<close>: the remainder has the sign of \<open>x\<close> (truncated division).\<close>

definition js_rem1 :: "rat \<Rightarrow> rat" where
  "js_rem1 x = x - of_int (if 0 \<le> x then \<lfloor>x\<rfloor> else \<lceil>x\<rceil>)"

definition renderStars :: "rat \<Rightarrow> glyph list" where
  "renderStars rating =
     (let fullStars = \<lfloor>rating\<rfloor>;
          hasHalfStar = (js_rem1 rating \<noteq> 0);
          stars = push_loop 0 fullStars Star [];
          stars = (if hasHalfStar then stars @ [StarHalf] else stars);
          emptyStars = 5 - \<lceil>rating\<rceil>
      in push_loop 0 emptyStars StarOutline stars)"

section \<open>Phone numbers: handleCall and handleWhatsApp\<close>

definition isDigit :: "char \<Rightarrow> bool" where
  "isDigit c = (c \<in> set ''0123456789'')"

text \<open>
  \<open>str.replace(/[^...]/g, '')\<close> for a negated character class: the scan visits every
  character once, deletes it when it is outside the class and keeps it otherwise.
\<close>

fun replace_outside :: "(char \<Rightarrow> bool) \<Rightarrow> string \<Rightarrow> string" where
  "replace_outside cls [] = []"
| "replace_outside cls (c # cs) =
     (if cls c then c # replace_outside cls cs else replace_outside cls cs)"

text \<open>
  A call of \<open>fetchProperties(pageNum, newFilters, isRefresh)\<close> is suspended at
  \<open>await fetch(...)\<close>; the three arguments are what its continuation still reads.
\<close>

record request =
  req_pageNum :: int
  req_newFilters :: FilterState
  req_isRefresh :: bool

text \<open>What a handler does to the world outside the component state.\<close>

datatype effect =
    Fetch request
  | FetchLocations
  | OpenURL string
  | Alert string string
  | ConsoleError string

definition handleCall_cleanPhone :: "string \<Rightarrow> string" where
  "handleCall_cleanPhone phoneNumber =
     replace_outside (\<lambda>c. isDigit c \<or> c = CHR ''+'') phoneNumber"

definition handleCall :: "string \<Rightarrow> effect list" where
  "handleCall phoneNumber = [OpenURL (''tel:'' @ handleCall_cleanPhone phoneNumber)]"

definition handleWhatsApp_cleanPhone :: "string \<Rightarrow> string" where
  "handleWhatsApp_cleanPhone phoneNumber = replace_outside isDigit phoneNumber"

text \<open>
  \<open>openURL_ok\<close> says whether the promise of \<open>Linking.openURL\<close> resolves; when it
  rejects, the handler of \<open>catch\<close> raises the alert.
\<close>

definition handleWhatsApp :: "bool \<Rightarrow> string \<Rightarrow> effect list" where
  "handleWhatsApp openURL_ok phoneNumber =
     (let whatsappUrl = ''whatsapp://send?phone='' @ handleWhatsApp_cleanPhone phoneNumber
      in OpenURL whatsappUrl #
         (if openURL_ok then [] else [Alert ''Error'' ''WhatsApp is not installed on your device'']))"

section \<open>The query parameters of fetchProperties\<close>

text \<open>
  \<open>numberToString\<close> stands for JavaScript's \<open>Number.prototype.toString\<close>, a built-in
  of the language. The object literal lists \<open>page\<close>, \<open>per_page\<close> and \<open>sort_by\<close> and then
  spreads \<open>v && {k: v}\<close> for each optional filter: spreading a falsy value (the empty
  string, \<open>null\<close>, \<open>0\<close>) adds no key.
\<close>

definition truthy_string :: "string \<Rightarrow> bool" where
  "truthy_string v = (v \<noteq> [])"

definition truthy_number :: "rat option \<Rightarrow> bool" where
  "truthy_number v = (case v of None \<Rightarrow> False | Some r \<Rightarrow> r \<noteq> 0)"

definition buildParams :: "(rat \<Rightarrow> string) \<Rightarrow> int \<Rightarrow> FilterState \<Rightarrow> (string \<times> string) list" where
  "buildParams numberToString pageNum newFilters =
     [(''page'', numberToString (of_int pageNum)),
      (''per_page'', ''20''),
      (''sort_by'', sort_by newFilters)]
     @ (if truthy_string (search newFilters) then [(''search'', search newFilters)] else [])
     @ (if truthy_string (location newFilters) then [(''location'', location newFilters)] else [])
     @ (if truthy_string (sub_location newFilters)
        then [(''sub_location'', sub_location newFilters)] else [])
     @ (if truthy_string (category newFilters) then [(''category'', category newFilters)] else [])
     @ (case min_rating newFilters of
          None \<Rightarrow> []
        | Some r \<Rightarrow> if truthy_number (Some r) then [(''min_rating'', numberToString r)] else [])"

section \<open>Component state and the handlers that change it\<close>

text \<open>
  One field for each \<open>useState\<close> of \<open>ListingScreen\<close>. A handler runs on the state of
  the latest render (the component is rendered between two events), performs its
  \<open>setX\<close> calls in order and returns the new state with the effects it caused.
\<close>

record ListingScreen =
  properties :: "Property list"
  locations :: "LocationStat list"
  loading :: bool
  refreshing :: bool
  page :: int
  hasMore :: bool
  total :: int
  showFilters :: bool
  filters :: FilterState
  expandedSections :: "(string \<times> bool) list"

definition initialFilters :: FilterState where
  "initialFilters =
     \<lparr>search = [], location = [], sub_location = [], category = [],
      min_rating = None, sort_by = ''reviews_desc''\<rparr>"

definition initialScreen :: ListingScreen where
  "initialScreen =
     \<lparr>properties = [], locations = [], loading = False, refreshing = False, page = 1,
      hasMore = True, total = 0, showFilters = False, filters = initialFilters,
      expandedSections = [(''location'', True), (''price'', False), (''classification'', False)]\<rparr>"

text \<open>The outcome of \<open>await fetch(...)\<close> followed by \<open>await response.json()\<close>.\<close>

datatype fetch_result =
    Rejected
  | NotOk int
  | Json APIResponse

text \<open>\<open>fetchProperties\<close> up to its first \<open>await\<close>.\<close>

definition fetchProperties_start :: "request \<Rightarrow> ListingScreen \<Rightarrow> ListingScreen \<times> effect list" where
  "fetchProperties_start r s =
     ((if req_pageNum r = 1
       then (if req_isRefresh r then s\<lparr>refreshing := True\<rparr> else s\<lparr>loading := True\<rparr>)
       else s),
      [Fetch r])"

text \<open>The \<open>finally\<close> block.\<close>

definition fetchProperties_finally :: "ListingScreen \<Rightarrow> ListingScreen" where
  "fetchProperties_finally s = s\<lparr>loading := False, refreshing := False\<rparr>"

text \<open>\<open>fetchProperties\<close> from the point where the awaited response is there.\<close>

definition fetchProperties_resume ::
    "request \<Rightarrow> fetch_result \<Rightarrow> ListingScreen \<Rightarrow> ListingScreen \<times> effect list" where
  "fetchProperties_resume r res s =
     (case res of
        Json data \<Rightarrow>
          (let s1 = (if req_pageNum r = 1
                     then s\<lparr>properties := data_properties data\<rparr>
                     else s\<lparr>properties := properties s @ data_properties data\<rparr>);
               s2 = s1\<lparr>total := data_total data\<rparr>;
               s3 = s2\<lparr>hasMore := (req_pageNum r < data_total_pages data)\<rparr>
           in (fetchProperties_finally s3, []))
      | _ \<Rightarrow>
          (fetchProperties_finally s,
           [ConsoleError ''Error fetching properties:'',
            Alert ''Error'' ''Failed to load properties. Please try again.'']))"

text \<open>The effect on \<open>[filters]\<close>: \<open>setPage(1); fetchProperties(1, filters)\<close>.\<close>

definition filters_effect :: "ListingScreen \<Rightarrow> ListingScreen \<times> effect list" where
  "filters_effect s =
     fetchProperties_start \<lparr>req_pageNum = 1, req_newFilters = filters s, req_isRefresh = False\<rparr>
       (s\<lparr>page := 1\<rparr>)"

text \<open>
  Mounting runs both effects: \<open>fetchLocations(); fetchProperties(1, filters)\<close> and then
  the effect on \<open>[filters]\<close>.
\<close>

definition mount :: "ListingScreen \<Rightarrow> ListingScreen \<times> effect list" where
  "mount s =
     (let (s1, e1) = fetchProperties_start
                       \<lparr>req_pageNum = 1, req_newFilters = filters s, req_isRefresh = False\<rparr> s;
          (s2, e2) = filters_effect s1
      in (s2, FetchLocations # e1 @ e2))"

text \<open>
  \<open>handleFilterChange(key, value)\<close> is \<open>setFilters(prev => ({...prev, [key]: value}))\<close>;
  a pair of key and value is one constructor here.
\<close>

datatype filter_change =
    Set_search string
  | Set_location string
  | Set_sub_location string
  | Set_category string
  | Set_min_rating "rat option"
  | Set_sort_by string

fun handleFilterChange :: "filter_change \<Rightarrow> FilterState \<Rightarrow> FilterState" where
  "handleFilterChange (Set_search v) prev = prev\<lparr>search := v\<rparr>"
| "handleFilterChange (Set_location v) prev = prev\<lparr>location := v\<rparr>"
| "handleFilterChange (Set_sub_location v) prev = prev\<lparr>sub_location := v\<rparr>"
| "handleFilterChange (Set_category v) prev = prev\<lparr>category := v\<rparr>"
| "handleFilterChange (Set_min_rating v) prev = prev\<lparr>min_rating := v\<rparr>"
| "handleFilterChange (Set_sort_by v) prev = prev\<lparr>sort_by := v\<rparr>"

definition clearFilters :: FilterState where
  "clearFilters =
     \<lparr>search = [], location = [], sub_location = [], category = [],
      min_rating = None, sort_by = ''reviews_desc''\<rparr>"

text \<open>
  The \<open>onPress\<close> of a sub-location leaf \<open>name\<close> under \<open>loc.location\<close>. The condition reads
  \<open>filters\<close> of the render; the two updates are then applied in order to the same state.
\<close>

definition subLocation_onPress :: "string \<Rightarrow> string \<Rightarrow> FilterState \<Rightarrow> FilterState" where
  "subLocation_onPress loc name fs =
     handleFilterChange
       (Set_sub_location (if location fs = loc \<and> sub_location fs = name then [] else name))
       (handleFilterChange (Set_location loc) fs)"

definition category_onPress :: "string \<Rightarrow> FilterState \<Rightarrow> FilterState" where
  "category_onPress cat fs =
     handleFilterChange (Set_category (if category fs = cat then [] else cat)) fs"

text \<open>A new \<open>filters\<close> object is rendered and the effect on \<open>[filters]\<close> runs.\<close>

definition setFilters :: "FilterState \<Rightarrow> ListingScreen \<Rightarrow> ListingScreen \<times> effect list" where
  "setFilters fs s = filters_effect (s\<lparr>filters := fs\<rparr>)"

definition handleLoadMore :: "ListingScreen \<Rightarrow> ListingScreen \<times> effect list" where
  "handleLoadMore s =
     (if \<not> loading s \<and> hasMore s
      then (let nextPage = page s + 1
            in fetchProperties_start
                 \<lparr>req_pageNum = nextPage, req_newFilters = filters s, req_isRefresh = False\<rparr>
                 (s\<lparr>page := nextPage\<rparr>))
      else (s, []))"

definition handleRefresh :: "ListingScreen \<Rightarrow> ListingScreen \<times> effect list" where
  "handleRefresh s =
     fetchProperties_start \<lparr>req_pageNum = 1, req_newFilters = filters s, req_isRefresh = True\<rparr>
       (s\<lparr>page := 1\<rparr>)"

section \<open>The screen with its requests in flight\<close>

text \<open>
  \<open>inflight\<close> holds the suspended calls of \<open>fetchProperties\<close> in the order they were
  issued; \<open>trace\<close> collects every effect, so the \<open>Fetch\<close> entries of \<open>trace\<close> are the
  network calls made so far. A response may arrive for any request in flight, in any order.
\<close>

record system =
  screen :: ListingScreen
  inflight :: "request list"
  trace :: "effect list"

datatype event =
    Mount
  | ChangeFilter filter_change
  | PressSubLocation string string
  | PressCategory string
  | ClearFilters
  | EndReached
  | Refresh
  | Resolve nat fetch_result

fun fetches :: "effect list \<Rightarrow> request list" where
  "fetches [] = []"
| "fetches (Fetch r # es) = r # fetches es"
| "fetches (_ # es) = fetches es"

definition perform :: "system \<Rightarrow> ListingScreen \<times> effect list \<Rightarrow> system" where
  "perform sys out =
     \<lparr>screen = fst out, inflight = inflight sys @ fetches (snd out),
      trace = trace sys @ snd out\<rparr>"

definition drop_nth :: "nat \<Rightarrow> 'a list \<Rightarrow> 'a list" where
  "drop_nth i xs = take i xs @ drop (Suc i) xs"

fun step :: "event \<Rightarrow> system \<Rightarrow> system" where
  "step Mount sys = perform sys (mount (screen sys))"
| "step (ChangeFilter c) sys =
     perform sys (setFilters (handleFilterChange c (filters (screen sys))) (screen sys))"
| "step (PressSubLocation loc name) sys =
     perform sys (setFilters (subLocation_onPress loc name (filters (screen sys))) (screen sys))"
| "step (PressCategory cat) sys =
     perform sys (setFilters (category_onPress cat (filters (screen sys))) (screen sys))"
| "step ClearFilters sys = perform sys (setFilters clearFilters (screen sys))"
| "step EndReached sys = perform sys (handleLoadMore (screen sys))"
| "step Refresh sys = perform sys (handleRefresh (screen sys))"
| "step (Resolve i res) sys =
     (if i < length (inflight sys)
      then perform (sys\<lparr>inflight := drop_nth i (inflight sys)\<rparr>)
             (fetchProperties_resume (inflight sys ! i) res (screen sys))
      else sys)"

fun run :: "event list \<Rightarrow> system \<Rightarrow> system" where
  "run [] sys = sys"
| "run (e # es) sys = run es (step e sys)"

definition initialSystem :: system where
  "initialSystem = \<lparr>screen = initialScreen, inflight = [], trace = []\<rparr>"

section \<open>Scenarios\<close>

text \<open>
  A run of sequential page fetches: a trigger of a first-page fetch (a filter change or a
  refresh) on a screen with nothing in flight, its response, and then for every further
  page an end-of-list trigger that issues a request, followed by that request's response
  before anything else happens. The run is \<open>None\<close> when some end-of-list trigger issues
  no request.
\<close>

fun first_page_trigger :: "event \<Rightarrow> bool" where
  "first_page_trigger (ChangeFilter c) = True"
| "first_page_trigger (PressSubLocation loc name) = True"
| "first_page_trigger (PressCategory cat) = True"
| "first_page_trigger ClearFilters = True"
| "first_page_trigger Refresh = True"
| "first_page_trigger Mount = False"
| "first_page_trigger EndReached = False"
| "first_page_trigger (Resolve i res) = False"

fun load_pages :: "APIResponse list \<Rightarrow> system \<Rightarrow> system option" where
  "load_pages [] sys = Some sys"
| "load_pages (d # ds) sys =
     (case inflight (step EndReached sys) of
        [r] \<Rightarrow> load_pages ds (step (Resolve 0 (Json d)) (step EndReached sys))
      | _ \<Rightarrow> None)"

definition sequential_fetches ::
    "event \<Rightarrow> APIResponse \<Rightarrow> APIResponse list \<Rightarrow> system \<Rightarrow> system option" where
  "sequential_fetches e d ds sys =
     (if first_page_trigger e \<and> inflight sys = []
      then load_pages ds (step (Resolve 0 (Json d)) (step e sys))
      else None)"

text \<open>Events that are neither a filter change nor a refresh nor the mounting.\<close>

fun scroll_or_response :: "event \<Rightarrow> bool" where
  "scroll_or_response EndReached = True"
| "scroll_or_response (Resolve i res) = True"
| "scroll_or_response e = False"

text \<open>Concrete data: a listing, a response page, and the screen once it has loaded.\<close>

definition sample_item :: "string \<Rightarrow> Property" where
  "sample_item n =
     \<lparr>prop_id = n, homestay_name = n, prop_location = ''Dooars'',
      prop_sub_location = ''Lataguri'', google_address = [], google_phone = ''+91 98300 12345'',
      google_rating = 9 / 2, number_of_reviews = 12, google_maps_link = [], photo_url = [],
      prop_category = ''Homestay'', amenities = [], tariff = [], source_url = None,
      youtube_video = None\<rparr>"

definition sample_page :: "string list \<Rightarrow> int \<Rightarrow> int \<Rightarrow> APIResponse" where
  "sample_page names p tp =
     \<lparr>data_properties = map sample_item names, data_total = 50, data_page = p,
      data_per_page = 20, data_total_pages = tp\<rparr>"

text \<open>
  The screen after mounting and after both of the mount's first-page responses (three
  pages exist), with nothing in flight.
\<close>

definition loaded_system :: system where
  "loaded_system =
     run [Mount, Resolve 0 (Json (sample_page [''p1''] 1 3)),
          Resolve 0 (Json (sample_page [''p1''] 1 3))] initialSystem"

text \<open>The same with a single page: \<open>hasMore\<close> is false.\<close>

definition last_page_system :: system where
  "last_page_system =
     run [Mount, Resolve 0 (Json (sample_page [''p1''] 1 1)),
          Resolve 0 (Json (sample_page [''p1''] 1 1))] initialSystem"

text \<open>Two filter changes in a row: two first-page requests are in flight.\<close>

definition two_searches_pending :: system where
  "two_searches_pending =
     run [ChangeFilter (Set_search ''a''), ChangeFilter (Set_search ''ab'')] loaded_system"

text \<open>
  Two end-of-list triggers in a row, and the response for page 3 arrives before the one
  for page 2.
\<close>

definition page3_before_page2 :: system where
  "page3_before_page2 =
     run [EndReached, EndReached, Resolve 1 (Json (sample_page [''p3''] 3 3))] loaded_system"

section \<open>Properties of renderStars\<close>

lemma push_loop_replicate: "push_loop i n g stars = stars @ replicate (nat (n - i)) g"
proof (induction i n g stars rule: push_loop.induct)
  case (1 i n g stars)
  show ?case
  proof (cases "i < n")
    case True
    then have "nat (n - i) = Suc (nat (n - (i + 1)))" by simp
    with True "1" show ?thesis
      by (subst push_loop.simps) (simp add: replicate_append_same)
  next
    case False
    then show ?thesis by (subst push_loop.simps) simp
  qed
qed

lemma js_rem1_frac: "0 \<le> x \<Longrightarrow> js_rem1 x = frac x"
  by (simp add: js_rem1_def frac_def)

lemma renderStars_eq:
  assumes "0 \<le> rating"
  shows "renderStars rating =
     replicate (nat \<lfloor>rating\<rfloor>) Star @ (if frac rating \<noteq> 0 then [StarHalf] else [])
       @ replicate (nat (5 - \<lceil>rating\<rceil>)) StarOutline"
  using assms by (simp add: renderStars_def Let_def push_loop_replicate js_rem1_frac)

lemma empty_count:
  assumes "0 \<le> rating" "rating \<le> 5"
  shows "nat (5 - \<lceil>rating\<rceil>) = 5 - (nat \<lfloor>rating\<rfloor> + (if frac rating \<noteq> 0 then 1 else 0))"
    and "nat \<lfloor>rating\<rfloor> + (if frac rating \<noteq> 0 then 1 else 0) \<le> (5::nat)"
proof -
  have f0: "0 \<le> \<lfloor>rating\<rfloor>" using assms by simp
  have c5: "\<lceil>rating\<rceil> \<le> 5" using assms by (simp add: ceiling_le_iff)
  have "nat (5 - \<lceil>rating\<rceil>) = 5 - (nat \<lfloor>rating\<rfloor> + (if frac rating \<noteq> 0 then 1 else 0))
      \<and> nat \<lfloor>rating\<rfloor> + (if frac rating \<noteq> 0 then 1 else 0) \<le> (5::nat)"
  proof (cases "frac rating = 0")
    case True
    then have "rating = of_int \<lfloor>rating\<rfloor>" by (simp add: frac_def)
    then have "\<lceil>rating\<rceil> = \<lfloor>rating\<rfloor>" by (metis ceiling_of_int)
    with True f0 c5 show ?thesis by (simp only: if_False if_True simp_thms; linarith)
  next
    case False
    then have "rating \<noteq> of_int \<lfloor>rating\<rfloor>" by (simp add: frac_def)
    then have "\<lceil>rating\<rceil> = \<lfloor>rating\<rfloor> + 1"
      by (simp add: ceiling_altdef)
    with False f0 c5 show ?thesis by (simp only: if_False if_True simp_thms; linarith)
  qed
  then show "nat (5 - \<lceil>rating\<rceil>) = 5 - (nat \<lfloor>rating\<rfloor> + (if frac rating \<noteq> 0 then 1 else 0))"
    and "nat \<lfloor>rating\<rfloor> + (if frac rating \<noteq> 0 then 1 else 0) \<le> (5::nat)"
    by simp_all
qed

lemma renderStars_in_range:
  assumes "0 \<le> rating" "rating \<le> 5"
  shows "renderStars rating =
           replicate (nat \<lfloor>rating\<rfloor>) Star
           @ (if frac rating \<noteq> 0 then [StarHalf] else [])
           @ replicate (5 - (nat \<lfloor>rating\<rfloor> + (if frac rating \<noteq> 0 then 1 else 0))) StarOutline"
    and "length (renderStars rating) = 5"
proof -
  show eq: "renderStars rating =
           replicate (nat \<lfloor>rating\<rfloor>) Star
           @ (if frac rating \<noteq> 0 then [StarHalf] else [])
           @ replicate (5 - (nat \<lfloor>rating\<rfloor> + (if frac rating \<noteq> 0 then 1 else 0))) StarOutline"
    by (simp only: renderStars_eq [OF assms(1)] empty_count(1) [OF assms])
  show "length (renderStars rating) = 5"
    using empty_count(2) [OF assms] by (subst eq) (simp split: if_splits)
qed

text \<open>
  C4. For every rating in [0,5], \<open>renderStars\<close> emits \<open>floor(rating)\<close> full glyphs, then
  one half glyph exactly when the fractional part of the rating is not zero, then empty
  glyphs for the remainder, five glyphs in all; \<open>renderStars(0)\<close> is five empty glyphs,
  \<open>renderStars(5)\<close> five full ones, \<open>renderStars(3.5)\<close> three full, one half and one empty,
  and \<open>renderStars(4.2)\<close> four full and one half. (The double nearest to 4.2 is not the
  rational 21/5, but it lies strictly between 4 and 5, and the general part gives the same
  glyphs for every such rating.)
\<close>

theorem renderStars_five_glyphs:
  "(0 \<le> rating \<and> rating \<le> 5 \<longrightarrow>
      renderStars rating =
        replicate (nat \<lfloor>rating\<rfloor>) Star
        @ (if frac rating \<noteq> 0 then [StarHalf] else [])
        @ replicate (5 - (nat \<lfloor>rating\<rfloor> + (if frac rating \<noteq> 0 then 1 else 0))) StarOutline
      \<and> length (renderStars rating) = 5)
   \<and> renderStars 0 = [StarOutline, StarOutline, StarOutline, StarOutline, StarOutline]
   \<and> renderStars 5 = [Star, Star, Star, Star, Star]
   \<and> renderStars (7 / 2) = [Star, Star, Star, StarHalf, StarOutline]
   \<and> renderStars (21 / 5) = [Star, Star, Star, Star, StarHalf]"
proof -
  have general: "0 \<le> rating \<and> rating \<le> 5 \<longrightarrow>
      renderStars rating =
        replicate (nat \<lfloor>rating\<rfloor>) Star
        @ (if frac rating \<noteq> 0 then [StarHalf] else [])
        @ replicate (5 - (nat \<lfloor>rating\<rfloor> + (if frac rating \<noteq> 0 then 1 else 0))) StarOutline
      \<and> length (renderStars rating) = 5"
    using renderStars_in_range by blast
  have r0: "renderStars 0 = [StarOutline, StarOutline, StarOutline, StarOutline, StarOutline]"
    by code_simp
  have r5: "renderStars 5 = [Star, Star, Star, Star, Star]"
    by code_simp
  have r35: "renderStars (7 / 2) = [Star, Star, Star, StarHalf, StarOutline]"
    by code_simp
  have r42: "renderStars (21 / 5) = [Star, Star, Star, Star, StarHalf]"
    by code_simp
  from general r0 r5 r35 r42 show ?thesis by (intro conjI)
qed

theorem renderStars_five_glyphs_witness:
  "(0::rat) \<le> 9 / 2 \<and> (9 / 2 :: rat) \<le> 5
   \<and> renderStars (9 / 2) = [Star, Star, Star, Star, StarHalf]
   \<and> length (renderStars (9 / 2)) = 5"
proof -
  have fl: "\<lfloor>9 / 2 :: rat\<rfloor> = 4" and fr: "frac (9 / 2 :: rat) = 1 / 2"
    by (simp_all add: floor_eq_iff frac_def)
  have h: "(0::rat) \<le> 9 / 2 \<and> (9 / 2 :: rat) \<le> 5" by simp
  from renderStars_five_glyphs [of "9 / 2"] h
  have "renderStars (9 / 2) =
        replicate (nat \<lfloor>9 / 2 :: rat\<rfloor>) Star
        @ (if frac (9 / 2 :: rat) \<noteq> 0 then [StarHalf] else [])
        @ replicate (5 - (nat \<lfloor>9 / 2 :: rat\<rfloor> + (if frac (9 / 2 :: rat) \<noteq> 0 then 1 else 0))) StarOutline
      \<and> length (renderStars (9 / 2)) = 5"
    by blast
  then show ?thesis
    by (simp add: fl fr eval_nat_numeral)
qed

section \<open>Properties of the phone number handlers\<close>

lemma replace_outside_filter: "replace_outside cls s = filter cls s"
  by (induction s) auto

text \<open>
  C9. For every phone number, the dial action opens \<open>tel:\<close> followed by the input with
  every character other than a digit or \<open>+\<close> removed (the kept characters in their order),
  and the WhatsApp action opens its URL with the digits of the input only.
\<close>

theorem phone_numbers_stripped:
  "handleCall phoneNumber =
     [OpenURL (''tel:'' @ filter (\<lambda>c. c \<in> set ''0123456789+'') phoneNumber)]
   \<and> hd (handleWhatsApp ok phoneNumber) =
     OpenURL (''whatsapp://send?phone='' @ filter (\<lambda>c. c \<in> set ''0123456789'') phoneNumber)
   \<and> subseq (handleCall_cleanPhone phoneNumber) phoneNumber
   \<and> subseq (handleWhatsApp_cleanPhone phoneNumber) phoneNumber
   \<and> CHR ''+'' \<notin> set (handleWhatsApp_cleanPhone phoneNumber)"
proof -
  have call: "handleCall_cleanPhone phoneNumber = filter (\<lambda>c. c \<in> set ''0123456789+'') phoneNumber"
    unfolding handleCall_cleanPhone_def replace_outside_filter
    by (rule filter_cong) (auto simp: isDigit_def)
  have wa: "handleWhatsApp_cleanPhone phoneNumber = filter (\<lambda>c. c \<in> set ''0123456789'') phoneNumber"
    unfolding handleWhatsApp_cleanPhone_def replace_outside_filter
    by (rule filter_cong) (auto simp: isDigit_def)
  have 1: "handleCall phoneNumber =
     [OpenURL (''tel:'' @ filter (\<lambda>c. c \<in> set ''0123456789+'') phoneNumber)]"
    by (simp only: handleCall_def call)
  have 2: "hd (handleWhatsApp ok phoneNumber) =
     OpenURL (''whatsapp://send?phone='' @ filter (\<lambda>c. c \<in> set ''0123456789'') phoneNumber)"
    by (simp only: handleWhatsApp_def wa Let_def list.sel)
  have 3: "subseq (handleCall_cleanPhone phoneNumber) phoneNumber"
    by (simp only: call subseq_filter_left)
  have 4: "subseq (handleWhatsApp_cleanPhone phoneNumber) phoneNumber"
    by (simp only: wa subseq_filter_left)
  have 5: "CHR ''+'' \<notin> set (handleWhatsApp_cleanPhone phoneNumber)"
    by (simp add: wa)
  from 1 2 3 4 5 show ?thesis by (intro conjI)
qed

section \<open>Properties of the query parameters\<close>

text \<open>
  C10. A filter parameter is part of the query exactly when the filter's value is truthy:
  the empty string is left out for \<open>search\<close>, \<open>location\<close>, \<open>sub_location\<close> and \<open>category\<close>,
  and \<open>min_rating\<close> is left out for \<open>null\<close> and for 0 alike, so that a minimum rating of 0
  yields the same query as no minimum rating.
\<close>

theorem buildParams_truthy_only:
  "((''search'', v) \<in> set (buildParams f n fs) \<longleftrightarrow> v = search fs \<and> search fs \<noteq> [])
   \<and> ((''location'', v) \<in> set (buildParams f n fs) \<longleftrightarrow> v = location fs \<and> location fs \<noteq> [])
   \<and> ((''sub_location'', v) \<in> set (buildParams f n fs)
        \<longleftrightarrow> v = sub_location fs \<and> sub_location fs \<noteq> [])
   \<and> ((''category'', v) \<in> set (buildParams f n fs) \<longleftrightarrow> v = category fs \<and> category fs \<noteq> [])
   \<and> ((''min_rating'', v) \<in> set (buildParams f n fs)
        \<longleftrightarrow> (\<exists>r. min_rating fs = Some r \<and> r \<noteq> 0 \<and> v = f r))
   \<and> buildParams f n (fs\<lparr>min_rating := Some 0\<rparr>) = buildParams f n (fs\<lparr>min_rating := None\<rparr>)
   \<and> distinct (map fst (buildParams f n fs))"
proof -
  have 1: "(''search'', v) \<in> set (buildParams f n fs) \<longleftrightarrow> v = search fs \<and> search fs \<noteq> []"
    by (auto simp: buildParams_def truthy_string_def truthy_number_def split: option.splits)
  have 2: "(''location'', v) \<in> set (buildParams f n fs) \<longleftrightarrow> v = location fs \<and> location fs \<noteq> []"
    by (auto simp: buildParams_def truthy_string_def truthy_number_def split: option.splits)
  have 3: "(''sub_location'', v) \<in> set (buildParams f n fs)
        \<longleftrightarrow> v = sub_location fs \<and> sub_location fs \<noteq> []"
    by (auto simp: buildParams_def truthy_string_def truthy_number_def split: option.splits)
  have 4: "(''category'', v) \<in> set (buildParams f n fs) \<longleftrightarrow> v = category fs \<and> category fs \<noteq> []"
    by (auto simp: buildParams_def truthy_string_def truthy_number_def split: option.splits)
  have 5: "(''min_rating'', v) \<in> set (buildParams f n fs)
        \<longleftrightarrow> (\<exists>r. min_rating fs = Some r \<and> r \<noteq> 0 \<and> v = f r)"
    by (cases "min_rating fs") (auto simp: buildParams_def truthy_string_def truthy_number_def)
  have 6: "buildParams f n (fs\<lparr>min_rating := Some 0\<rparr>) = buildParams f n (fs\<lparr>min_rating := None\<rparr>)"
    by (simp add: buildParams_def truthy_number_def)
  have 7: "distinct (map fst (buildParams f n fs))"
    by (simp add: buildParams_def truthy_string_def truthy_number_def split: option.splits)
  from 1 2 3 4 5 6 7 show ?thesis by (intro conjI)
qed

section \<open>Properties of the sub-location leaves\<close>

text \<open>
  C8. Pressing a sub-location leaf that is not the selected one sets \<open>location\<close> and
  \<open>sub_location\<close> to the leaf's location and name; pressing the selected leaf clears
  \<open>sub_location\<close> only; pressing another leaf under the selected location sets
  \<open>sub_location\<close> to the new name and keeps the location, with no deselection in between
  (Lataguri, then Chalsa, under Dooars gives Chalsa). The press renders the new filters.
\<close>

theorem subLocation_toggle:
  "(\<not> (location fs = loc \<and> sub_location fs = name) \<longrightarrow>
      subLocation_onPress loc name fs = fs\<lparr>location := loc, sub_location := name\<rparr>)
   \<and> (location fs = loc \<and> sub_location fs = name \<longrightarrow>
      subLocation_onPress loc name fs = fs\<lparr>sub_location := []\<rparr>
      \<and> location (subLocation_onPress loc name fs) = loc)
   \<and> (location fs = loc \<and> sub_location fs \<noteq> name \<longrightarrow>
      subLocation_onPress loc name fs = fs\<lparr>sub_location := name\<rparr>)
   \<and> sub_location (subLocation_onPress ''Dooars'' ''Chalsa''
        (subLocation_onPress ''Dooars'' ''Lataguri'' fs)) = ''Chalsa''
   \<and> location (subLocation_onPress ''Dooars'' ''Chalsa''
        (subLocation_onPress ''Dooars'' ''Lataguri'' fs)) = ''Dooars''
   \<and> filters (screen (step (PressSubLocation loc name) sys)) =
        subLocation_onPress loc name (filters (screen sys))"
proof -
  have 1: "\<not> (location fs = loc \<and> sub_location fs = name) \<longrightarrow>
      subLocation_onPress loc name fs = fs\<lparr>location := loc, sub_location := name\<rparr>"
    by (simp add: subLocation_onPress_def)
  have 2: "location fs = loc \<and> sub_location fs = name \<longrightarrow>
      subLocation_onPress loc name fs = fs\<lparr>sub_location := []\<rparr>
      \<and> location (subLocation_onPress loc name fs) = loc"
    by (simp add: subLocation_onPress_def)
  have 3: "location fs = loc \<and> sub_location fs \<noteq> name \<longrightarrow>
      subLocation_onPress loc name fs = fs\<lparr>sub_location := name\<rparr>"
    by (simp add: subLocation_onPress_def)
  have 4: "sub_location (subLocation_onPress ''Dooars'' ''Chalsa''
        (subLocation_onPress ''Dooars'' ''Lataguri'' fs)) = ''Chalsa''"
    by (simp add: subLocation_onPress_def)
  have 5: "location (subLocation_onPress ''Dooars'' ''Chalsa''
        (subLocation_onPress ''Dooars'' ''Lataguri'' fs)) = ''Dooars''"
    by (simp add: subLocation_onPress_def)
  have 6: "filters (screen (step (PressSubLocation loc name) sys)) =
        subLocation_onPress loc name (filters (screen sys))"
    by (simp add: perform_def setFilters_def filters_effect_def fetchProperties_start_def)
  from 1 2 3 4 5 6 show ?thesis by (intro conjI)
qed

theorem subLocation_toggle_witness:
  "subLocation_onPress ''Dooars'' ''Lataguri'' initialFilters =
     initialFilters\<lparr>location := ''Dooars'', sub_location := ''Lataguri''\<rparr>
   \<and> subLocation_onPress ''Dooars'' ''Lataguri''
       (initialFilters\<lparr>location := ''Dooars'', sub_location := ''Lataguri''\<rparr>) =
     initialFilters\<lparr>location := ''Dooars'', sub_location := []\<rparr>
   \<and> subLocation_onPress ''Dooars'' ''Chalsa''
       (initialFilters\<lparr>location := ''Dooars'', sub_location := ''Lataguri''\<rparr>) =
     initialFilters\<lparr>location := ''Dooars'', sub_location := ''Chalsa''\<rparr>"
proof -
  let ?sel = "initialFilters\<lparr>location := ''Dooars'', sub_location := ''Lataguri''\<rparr>"
  have a: "\<not> (location initialFilters = ''Dooars'' \<and> sub_location initialFilters = ''Lataguri'')"
    by (simp add: initialFilters_def)
  have b: "location ?sel = ''Dooars'' \<and> sub_location ?sel = ''Lataguri''"
    by simp
  have c: "location ?sel = ''Dooars'' \<and> sub_location ?sel \<noteq> ''Chalsa''"
    by simp
  from a subLocation_toggle [of initialFilters "''Dooars''" "''Lataguri''"]
  have 1: "subLocation_onPress ''Dooars'' ''Lataguri'' initialFilters =
     initialFilters\<lparr>location := ''Dooars'', sub_location := ''Lataguri''\<rparr>"
    by blast
  from b subLocation_toggle [of ?sel "''Dooars''" "''Lataguri''"]
  have "subLocation_onPress ''Dooars'' ''Lataguri'' ?sel = ?sel\<lparr>sub_location := []\<rparr>"
    by blast
  then have 2: "subLocation_onPress ''Dooars'' ''Lataguri'' ?sel =
     initialFilters\<lparr>location := ''Dooars'', sub_location := []\<rparr>"
    by simp
  from c subLocation_toggle [of ?sel "''Dooars''" "''Chalsa''"]
  have "subLocation_onPress ''Dooars'' ''Chalsa'' ?sel = ?sel\<lparr>sub_location := ''Chalsa''\<rparr>"
    by blast
  then have 3: "subLocation_onPress ''Dooars'' ''Chalsa'' ?sel =
     initialFilters\<lparr>location := ''Dooars'', sub_location := ''Chalsa''\<rparr>"
    by simp
  from 1 2 3 show ?thesis by (intro conjI)
qed

section \<open>Properties of the fetch state machine\<close>

lemma handleLoadMore_noop: "\<not> hasMore s \<or> loading s \<Longrightarrow> handleLoadMore s = (s, [])"
  by (auto simp: handleLoadMore_def)

lemma perform_nothing: "perform sys (screen sys, []) = sys"
  by (simp add: perform_def)

lemma last_page_system_eval:
  "hasMore (screen last_page_system) = False"
  "loading (screen last_page_system) = False"
  "inflight last_page_system = []"
  "map prop_id (properties (screen last_page_system)) = [''p1'']"
  by (simp_all add: last_page_system_def initialSystem_def initialScreen_def sample_page_def
      perform_def mount_def filters_effect_def fetchProperties_start_def
      fetchProperties_resume_def fetchProperties_finally_def drop_nth_def sample_item_def)

text \<open>
  C3. In every state with \<open>hasMore\<close> false, \<open>handleLoadMore\<close> issues no request and
  leaves the whole state as it is: the screen, the requests in flight and the effects.
\<close>

theorem loadMore_without_more_is_noop:
  assumes "\<not> hasMore (screen sys)"
  shows "handleLoadMore (screen sys) = (screen sys, []) \<and> step EndReached sys = sys"
  using assms by (simp add: handleLoadMore_noop perform_nothing)

theorem loadMore_without_more_is_noop_witness:
  "\<not> hasMore (screen last_page_system)
   \<and> handleLoadMore (screen last_page_system) = (screen last_page_system, [])
   \<and> step EndReached last_page_system = last_page_system"
proof -
  have h: "\<not> hasMore (screen last_page_system)"
    by (simp add: last_page_system_eval)
  from h loadMore_without_more_is_noop [OF h] show ?thesis by blast
qed

lemmas machine_defs =
  step.simps perform_def mount_def setFilters_def filters_effect_def handleLoadMore_def handleRefresh_def
  fetchProperties_start_def fetchProperties_resume_def fetchProperties_finally_def drop_nth_def

lemmas scenario_defs =
  initialSystem_def initialScreen_def initialFilters_def sample_page_def sample_item_def

declare step.simps [simp del]

lemma resolve_json_screen:
  assumes "i < length (inflight sys)"
  shows "screen (step (Resolve i (Json d)) sys) =
           (screen sys)\<lparr>properties :=
                           (if req_pageNum (inflight sys ! i) = 1 then data_properties d
                            else properties (screen sys) @ data_properties d),
                         total := data_total d,
                         hasMore := (req_pageNum (inflight sys ! i) < data_total_pages d),
                         loading := False, refreshing := False\<rparr>"
    and "inflight (step (Resolve i (Json d)) sys) = drop_nth i (inflight sys)"
    and "trace (step (Resolve i (Json d)) sys) = trace sys"
  using assms
  by (simp_all add: step.simps perform_def fetchProperties_resume_def fetchProperties_finally_def)

lemma first_page_trigger_step:
  assumes "first_page_trigger e"
  shows "\<exists>r. inflight (step e sys) = inflight sys @ [r] \<and> req_pageNum r = 1
             \<and> req_newFilters r = filters (screen (step e sys))
             \<and> page (screen (step e sys)) = 1"
  using assms by (cases e) (simp_all add: step.simps machine_defs)

lemma load_more_issues:
  assumes "\<not> loading (screen sys)" "hasMore (screen sys)" "1 \<le> page (screen sys)"
  shows "inflight (step EndReached sys) =
           inflight sys @ [\<lparr>req_pageNum = page (screen sys) + 1,
                             req_newFilters = filters (screen sys), req_isRefresh = False\<rparr>]"
    and "screen (step EndReached sys) = (screen sys)\<lparr>page := page (screen sys) + 1\<rparr>"
  using assms
  by (simp_all add: step.simps perform_def handleLoadMore_def fetchProperties_start_def Let_def)

lemma load_more_blocked:
  assumes "loading (screen sys) \<or> \<not> hasMore (screen sys)"
  shows "step EndReached sys = sys"
  using assms by (auto simp: step.simps perform_def handleLoadMore_def)

lemma load_pages_accumulate:
  assumes "load_pages ds sys = Some sys'" "inflight sys = []" "1 \<le> page (screen sys)"
  shows "properties (screen sys') = properties (screen sys) @ concat (map data_properties ds)
         \<and> inflight sys' = [] \<and> filters (screen sys') = filters (screen sys)
         \<and> page (screen sys') = page (screen sys) + int (length ds)"
  using assms
proof (induction ds arbitrary: sys)
  case Nil
  then show ?case by simp
next
  case (Cons d ds)
  let ?sys1 = "step EndReached sys"
  let ?sys2 = "step (Resolve 0 (Json d)) ?sys1"
  have can: "\<not> loading (screen sys) \<and> hasMore (screen sys)"
  proof (rule ccontr)
    assume "\<not> (\<not> loading (screen sys) \<and> hasMore (screen sys))"
    then have "?sys1 = sys" by (intro load_more_blocked) blast
    with Cons.prems show False by simp
  qed
  then have in1: "inflight ?sys1 =
      [\<lparr>req_pageNum = page (screen sys) + 1, req_newFilters = filters (screen sys),
        req_isRefresh = False\<rparr>]"
    and sc1: "screen ?sys1 = (screen sys)\<lparr>page := page (screen sys) + 1\<rparr>"
    using load_more_issues [of sys] Cons.prems(2,3) by simp_all
  from in1 have lt: "0 < length (inflight ?sys1)" by simp
  have ne1: "req_pageNum (inflight ?sys1 ! 0) \<noteq> 1"
    using Cons.prems(3) by (simp add: in1)
  have sc2: "properties (screen ?sys2) = properties (screen sys) @ data_properties d"
    "filters (screen ?sys2) = filters (screen sys)"
    "page (screen ?sys2) = page (screen sys) + 1"
    using ne1 by (simp_all add: resolve_json_screen(1) [OF lt] sc1)
  have in2: "inflight ?sys2 = []"
    by (simp add: resolve_json_screen(2) [OF lt] in1 drop_nth_def)
  from Cons.prems(1) in1 have rest: "load_pages ds ?sys2 = Some sys'"
    by simp
  have "1 \<le> page (screen ?sys2)" using Cons.prems(3) sc2(3) by simp
  from Cons.IH [OF rest in2 this] show ?case
    by (simp add: sc2)
qed

lemma sum_list_length_concat: "length (concat xss) = sum_list (map length xss)"
  by (induction xss) simp_all

lemma first_page_replaces:
  assumes "first_page_trigger e" "inflight sys = []"
  shows "properties (screen (step (Resolve 0 (Json d)) (step e sys))) = data_properties d"
    and "inflight (step (Resolve 0 (Json d)) (step e sys)) = []"
    and "page (screen (step (Resolve 0 (Json d)) (step e sys))) = 1"
    and "filters (screen (step (Resolve 0 (Json d)) (step e sys))) = filters (screen (step e sys))"
proof -
  from first_page_trigger_step [OF assms(1), of sys] assms(2)
  obtain r where r: "inflight (step e sys) = [r]" "req_pageNum r = 1"
    "page (screen (step e sys)) = 1"
    by auto
  then have lt: "0 < length (inflight (step e sys))" by simp
  show "properties (screen (step (Resolve 0 (Json d)) (step e sys))) = data_properties d"
    by (simp add: resolve_json_screen(1) [OF lt] r)
  show "inflight (step (Resolve 0 (Json d)) (step e sys)) = []"
    by (simp add: resolve_json_screen(2) [OF lt] r drop_nth_def)
  show "page (screen (step (Resolve 0 (Json d)) (step e sys))) = 1"
    by (simp add: resolve_json_screen(1) [OF lt] r)
  show "filters (screen (step (Resolve 0 (Json d)) (step e sys))) = filters (screen (step e sys))"
    by (simp add: resolve_json_screen(1) [OF lt])
qed

lemma loaded_system_eval:
  "map prop_id (properties (screen loaded_system)) = [''p1'']"
  "loading (screen loaded_system) = False"
  "refreshing (screen loaded_system) = False"
  "hasMore (screen loaded_system) = True"
  "page (screen loaded_system) = 1"
  "filters (screen loaded_system) = initialFilters"
  "inflight loaded_system = []"
  by (simp_all add: loaded_system_def machine_defs scenario_defs)

lemma sequential_core:
  "(sequential_fetches e d ds sys = Some sys' \<longrightarrow>
      properties (screen sys') = concat (map data_properties (d # ds))
      \<and> length (properties (screen sys')) = sum_list (map (\<lambda>p. length (data_properties p)) (d # ds))
      \<and> filters (screen sys') = filters (screen (step e sys))
      \<and> page (screen sys') = 1 + int (length ds)
      \<and> inflight sys' = [])
   \<and> (first_page_trigger e \<and> inflight sys = [] \<longrightarrow>
      sequential_fetches e d [] sys = Some (step (Resolve 0 (Json d)) (step e sys))
      \<and> properties (screen (step (Resolve 0 (Json d)) (step e sys))) = data_properties d)"
proof (intro conjI impI)
  assume run: "sequential_fetches e d ds sys = Some sys'"
  let ?sys1 = "step (Resolve 0 (Json d)) (step e sys)"
  from run have trig: "first_page_trigger e" and idle: "inflight sys = []"
    and rest: "load_pages ds ?sys1 = Some sys'"
    by (simp_all add: sequential_fetches_def split: if_splits)
  note fp = first_page_replaces [OF trig idle, of d]
  have "1 \<le> page (screen ?sys1)" by (simp add: fp(3))
  from load_pages_accumulate [OF rest fp(2) this]
  have acc: "properties (screen sys') = data_properties d @ concat (map data_properties ds)"
    and fl: "filters (screen sys') = filters (screen (step e sys))"
    and pg: "page (screen sys') = 1 + int (length ds)"
    and fin: "inflight sys' = []"
    by (simp_all add: fp)
  show "properties (screen sys') = concat (map data_properties (d # ds))"
    using acc by simp
  show "length (properties (screen sys')) = sum_list (map (\<lambda>p. length (data_properties p)) (d # ds))"
    using acc by (simp add: sum_list_length_concat comp_def)
  show "filters (screen sys') = filters (screen (step e sys))" by (rule fl)
  show "page (screen sys') = 1 + int (length ds)" by (rule pg)
  show "inflight sys' = []" by (rule fin)
next
  assume "first_page_trigger e \<and> inflight sys = []"
  then show "sequential_fetches e d [] sys = Some (step (Resolve 0 (Json d)) (step e sys))"
    by (simp add: sequential_fetches_def)
next
  assume "first_page_trigger e \<and> inflight sys = []"
  then show "properties (screen (step (Resolve 0 (Json d)) (step e sys))) = data_properties d"
    using first_page_replaces(1) by blast
qed

lemma trigger_keeps_list:
  assumes "first_page_trigger e \<or> e = Mount"
  shows "properties (screen (step e sys)) = properties (screen sys)"
  using assms by (cases e) (simp_all add: machine_defs)

lemma mount_step:
  "inflight (step Mount sys) =
     inflight sys @ [\<lparr>req_pageNum = 1, req_newFilters = filters (screen sys), req_isRefresh = False\<rparr>,
                     \<lparr>req_pageNum = 1, req_newFilters = filters (screen sys), req_isRefresh = False\<rparr>]"
  "page (screen (step Mount sys)) = 1"
  "filters (screen (step Mount sys)) = filters (screen sys)"
  by (simp_all add: machine_defs)

lemma initial_load:
  assumes "inflight sys = []"
  shows "properties (screen (run [Mount, Resolve 0 (Json d0), Resolve 0 (Json d)] sys)) =
           data_properties d"
    and "inflight (run [Mount, Resolve 0 (Json d0), Resolve 0 (Json d)] sys) = []"
    and "page (screen (run [Mount, Resolve 0 (Json d0), Resolve 0 (Json d)] sys)) = 1"
proof -
  let ?m = "step Mount sys"
  let ?a = "step (Resolve 0 (Json d0)) ?m"
  let ?b = "step (Resolve 0 (Json d)) ?a"
  have sys2: "run [Mount, Resolve 0 (Json d0), Resolve 0 (Json d)] sys = ?b" by simp
  have m: "inflight ?m =
     [\<lparr>req_pageNum = 1, req_newFilters = filters (screen sys), req_isRefresh = False\<rparr>,
      \<lparr>req_pageNum = 1, req_newFilters = filters (screen sys), req_isRefresh = False\<rparr>]"
    using assms(1) by (simp add: mount_step)
  then have lm: "0 < length (inflight ?m)" by simp
  have a: "inflight ?a =
     [\<lparr>req_pageNum = 1, req_newFilters = filters (screen sys), req_isRefresh = False\<rparr>]"
    by (simp add: resolve_json_screen(2) [OF lm] m drop_nth_def)
  then have la: "0 < length (inflight ?a)" by simp
  have pa: "page (screen ?a) = 1"
    by (simp add: resolve_json_screen(1) [OF lm] mount_step)
  show "properties (screen (run [Mount, Resolve 0 (Json d0), Resolve 0 (Json d)] sys)) =
           data_properties d"
    by (simp only: sys2) (simp add: resolve_json_screen(1) [OF la] a)
  show "inflight (run [Mount, Resolve 0 (Json d0), Resolve 0 (Json d)] sys) = []"
    by (simp only: sys2) (simp add: resolve_json_screen(2) [OF la] a drop_nth_def)
  show "page (screen (run [Mount, Resolve 0 (Json d0), Resolve 0 (Json d)] sys)) = 1"
    by (simp only: sys2) (simp add: resolve_json_screen(1) [OF la] pa)
qed

text \<open>
  C5, as the code has it. After a run of N successful sequential page fetches under one
  filter (a first-page fetch started by a filter change or a refresh with nothing in
  flight, or the initial load of the mounted screen, then N - 1 load-more fetches, each
  answered before the next starts), the accumulated list is the concatenation of the N
  pages in fetch order, whatever the list held before, and its length is the sum of the
  pages' item counts. A filter change, a refresh or the mounting does not discard the
  accumulated list: the trigger leaves it as it is, and it is replaced by a first page
  when a successful response to a first-page request arrives.
\<close>

theorem sequential_pages_concatenate:
  "(sequential_fetches e d ds sys = Some sys' \<longrightarrow>
      properties (screen sys') = concat (map data_properties (d # ds))
      \<and> length (properties (screen sys')) = sum_list (map (\<lambda>p. length (data_properties p)) (d # ds))
      \<and> filters (screen sys') = filters (screen (step e sys))
      \<and> page (screen sys') = 1 + int (length ds)
      \<and> inflight sys' = [])
   \<and> (first_page_trigger e \<and> inflight sys = [] \<longrightarrow>
      sequential_fetches e d [] sys = Some (step (Resolve 0 (Json d)) (step e sys))
      \<and> properties (screen (step (Resolve 0 (Json d)) (step e sys))) = data_properties d)
   \<and> (inflight sys = []
        \<and> load_pages ds (run [Mount, Resolve 0 (Json d0), Resolve 0 (Json d)] sys) = Some sys' \<longrightarrow>
      properties (screen sys') = concat (map data_properties (d # ds))
      \<and> length (properties (screen sys')) = sum_list (map (\<lambda>p. length (data_properties p)) (d # ds)))
   \<and> (first_page_trigger e \<or> e = Mount \<longrightarrow>
      properties (screen (step e sys)) = properties (screen sys))
   \<and> (i < length (inflight sys) \<and> req_pageNum (inflight sys ! i) = 1 \<longrightarrow>
      properties (screen (step (Resolve i (Json d)) sys)) = data_properties d)"
proof -
  have mountrun: "inflight sys = []
        \<and> load_pages ds (run [Mount, Resolve 0 (Json d0), Resolve 0 (Json d)] sys) = Some sys' \<longrightarrow>
      properties (screen sys') = concat (map data_properties (d # ds))
      \<and> length (properties (screen sys')) = sum_list (map (\<lambda>p. length (data_properties p)) (d # ds))"
  proof (intro impI)
    let ?sys2 = "run [Mount, Resolve 0 (Json d0), Resolve 0 (Json d)] sys"
    assume h: "inflight sys = [] \<and> load_pages ds ?sys2 = Some sys'"
    then have idle: "inflight sys = []" and rest: "load_pages ds ?sys2 = Some sys'"
      by blast+
    note il = initial_load [OF idle, of d0 d]
    have "1 \<le> page (screen ?sys2)" by (simp only: il(3))
    from load_pages_accumulate [OF rest il(2) this]
    have acc: "properties (screen sys') = data_properties d @ concat (map data_properties ds)"
      by (simp only: il(1))
    then show "properties (screen sys') = concat (map data_properties (d # ds))
      \<and> length (properties (screen sys')) = sum_list (map (\<lambda>p. length (data_properties p)) (d # ds))"
      by (simp add: sum_list_length_concat comp_def)
  qed
  have keeps: "first_page_trigger e \<or> e = Mount \<longrightarrow>
      properties (screen (step e sys)) = properties (screen sys)"
    using trigger_keeps_list by blast
  have replaces: "i < length (inflight sys) \<and> req_pageNum (inflight sys ! i) = 1 \<longrightarrow>
      properties (screen (step (Resolve i (Json d)) sys)) = data_properties d"
    by (simp add: resolve_json_screen(1))
  from sequential_core [of e d ds sys sys'] mountrun keeps replaces
  show ?thesis by (intro conjI) blast+
qed

lemma sequential_example:
  "sequential_fetches Refresh (sample_page [''a'', ''b''] 1 2) [sample_page [''c''] 2 2]
     loaded_system =
   Some (run [Refresh, Resolve 0 (Json (sample_page [''a'', ''b''] 1 2)),
              EndReached, Resolve 0 (Json (sample_page [''c''] 2 2))] loaded_system)"
  by (simp add: sequential_fetches_def loaded_system_def machine_defs scenario_defs)

lemma initial_load_example:
  "load_pages [sample_page [''p2''] 2 3]
     (run [Mount, Resolve 0 (Json (sample_page [''p0''] 1 3)),
           Resolve 0 (Json (sample_page [''p1''] 1 3))] initialSystem) =
   Some (run [Mount, Resolve 0 (Json (sample_page [''p0''] 1 3)),
              Resolve 0 (Json (sample_page [''p1''] 1 3)),
              EndReached, Resolve 0 (Json (sample_page [''p2''] 2 3))] initialSystem)"
  by (simp add: machine_defs scenario_defs)

theorem sequential_pages_concatenate_witness:
  "first_page_trigger Refresh \<and> inflight loaded_system = []
   \<and> sequential_fetches Refresh (sample_page [''a'', ''b''] 1 2) [sample_page [''c''] 2 2]
       loaded_system =
     Some (run [Refresh, Resolve 0 (Json (sample_page [''a'', ''b''] 1 2)),
                EndReached, Resolve 0 (Json (sample_page [''c''] 2 2))] loaded_system)
   \<and> map prop_id (properties (screen
        (run [Refresh, Resolve 0 (Json (sample_page [''a'', ''b''] 1 2)),
              EndReached, Resolve 0 (Json (sample_page [''c''] 2 2))] loaded_system))) =
     [''a'', ''b'', ''c'']
   \<and> length (properties (screen
        (run [Refresh, Resolve 0 (Json (sample_page [''a'', ''b''] 1 2)),
              EndReached, Resolve 0 (Json (sample_page [''c''] 2 2))] loaded_system))) = 3
   \<and> map prop_id (properties (screen
        (step (Resolve 0 (Json (sample_page [''a'', ''b''] 1 2))) (step Refresh loaded_system)))) =
     [''a'', ''b'']
   \<and> inflight initialSystem = []
   \<and> map prop_id (properties (screen
        (run [Mount, Resolve 0 (Json (sample_page [''p0''] 1 3)),
              Resolve 0 (Json (sample_page [''p1''] 1 3)),
              EndReached, Resolve 0 (Json (sample_page [''p2''] 2 3))] initialSystem))) =
     [''p1'', ''p2'']
   \<and> map prop_id (properties (screen (step Refresh loaded_system))) = [''p1'']
   \<and> map prop_id (properties (screen (step Mount loaded_system))) = [''p1'']
   \<and> 0 < length (inflight (step Refresh loaded_system))
   \<and> req_pageNum (inflight (step Refresh loaded_system) ! 0) = 1"
proof -
  let ?pa = "sample_page [''a'', ''b''] 1 2" and ?pc = "sample_page [''c''] 2 2"
  let ?last = "run [Refresh, Resolve 0 (Json ?pa), EndReached, Resolve 0 (Json ?pc)] loaded_system"
  let ?p0 = "sample_page [''p0''] 1 3" and ?p1 = "sample_page [''p1''] 1 3"
    and ?p2 = "sample_page [''p2''] 2 3"
  let ?init = "run [Mount, Resolve 0 (Json ?p0), Resolve 0 (Json ?p1), EndReached,
                    Resolve 0 (Json ?p2)] initialSystem"
  let ?r = "step Refresh loaded_system"
  have h: "first_page_trigger Refresh \<and> inflight loaded_system = []"
    by (simp add: loaded_system_eval)
  note inst = sequential_pages_concatenate
                [where e = Refresh and d = ?pa and ds = "[?pc]" and sys = loaded_system
                   and sys' = ?last and i = 0]
  from inst sequential_example
  have "properties (screen ?last) = concat (map data_properties [?pa, ?pc])"
    by blast
  then have all: "map prop_id (properties (screen ?last)) = [''a'', ''b'', ''c'']"
    and len: "length (properties (screen ?last)) = 3"
    by (simp_all add: sample_page_def sample_item_def)
  from inst h
  have "properties (screen (step (Resolve 0 (Json ?pa)) ?r)) = data_properties ?pa"
    by blast
  then have one: "map prop_id (properties (screen (step (Resolve 0 (Json ?pa)) ?r))) = [''a'', ''b'']"
    by (simp add: sample_page_def sample_item_def)
  have idle0: "inflight initialSystem = []" by (simp add: initialSystem_def)
  from sequential_pages_concatenate
         [where d = ?p1 and ds = "[?p2]" and sys = initialSystem and sys' = ?init and ?d0.0 = ?p0]
       idle0
    initial_load_example
  have "properties (screen ?init) = concat (map data_properties [?p1, ?p2])"
    by blast
  then have init: "map prop_id (properties (screen ?init)) = [''p1'', ''p2'']"
    by (simp add: sample_page_def sample_item_def)
  from sequential_pages_concatenate [where e = Refresh and sys = loaded_system] h
  have "properties (screen ?r) = properties (screen loaded_system)" by blast
  then have keepR: "map prop_id (properties (screen ?r)) = [''p1'']"
    by (simp add: loaded_system_eval)
  from sequential_pages_concatenate [where e = Mount and sys = loaded_system]
  have "properties (screen (step Mount loaded_system)) = properties (screen loaded_system)"
    by blast
  then have keepM: "map prop_id (properties (screen (step Mount loaded_system))) = [''p1'']"
    by (simp add: loaded_system_eval)
  have fl: "0 < length (inflight ?r)" "req_pageNum (inflight ?r ! 0) = 1"
    by (simp_all add: machine_defs loaded_system_eval)
  from h sequential_example all len one idle0 init keepR keepM fl
  show ?thesis by (intro conjI) simp_all
qed

text \<open>
  The claim C5 fails in its second half: the loaded screen shows \<open>p1\<close>, and it still
  shows \<open>p1\<close> after the search text has changed and after a refresh has been requested,
  and for ever when the new first-page request fails. And with a load-more for page 2 in
  flight at the refresh, the late page 2 is appended to the new first page.
\<close>

theorem trigger_keeps_old_list_counterexample:
  "map prop_id (properties (screen (step (ChangeFilter (Set_search ''x'')) loaded_system))) =
     [''p1'']
   \<and> map prop_id (properties (screen (step Refresh loaded_system))) = [''p1'']
   \<and> map prop_id (properties (screen (run [ClearFilters, Resolve 0 Rejected] loaded_system))) =
     [''p1'']
   \<and> map prop_id (properties (screen
        (run [EndReached, Refresh, Resolve 1 (Json (sample_page [''n1''] 1 3)),
              Resolve 0 (Json (sample_page [''old2''] 2 3))] loaded_system))) =
     [''n1'', ''old2'']"
  by (simp add: loaded_system_def machine_defs scenario_defs)

lemma two_searches_pending_eval:
  "map (\<lambda>r. search (req_newFilters r)) (inflight two_searches_pending) = [''a'', ''ab'']"
  "map req_pageNum (inflight two_searches_pending) = [1, 1]"
  "search (filters (screen two_searches_pending)) = ''ab''"
  "map prop_id (properties (screen two_searches_pending)) = [''p1'']"
  by (simp_all add: two_searches_pending_def loaded_system_def machine_defs scenario_defs)

text \<open>
  C1, as the code has it. The screen keeps no generation tag: a response is applied when it
  arrives, whichever request was issued last. A successful response to a first-page
  request replaces the displayed list by exactly its items (nothing displayed before is
  kept), a successful response to a next-page request appends its items, and the filters
  on screen are not consulted.
\<close>

theorem response_applied_on_arrival:
  assumes "i < length (inflight sys)"
  shows "properties (screen (step (Resolve i (Json d)) sys)) =
           (if req_pageNum (inflight sys ! i) = 1 then data_properties d
            else properties (screen sys) @ data_properties d)
         \<and> filters (screen (step (Resolve i (Json d)) sys)) = filters (screen sys)
         \<and> inflight (step (Resolve i (Json d)) sys) = drop_nth i (inflight sys)"
  by (simp add: resolve_json_screen [OF assms])

theorem response_applied_on_arrival_witness:
  "0 < length (inflight two_searches_pending)
   \<and> map prop_id (properties (screen
        (step (Resolve 0 (Json (sample_page [''a1'', ''a2''] 1 1))) two_searches_pending))) =
      [''a1'', ''a2'']
   \<and> search (filters (screen
        (step (Resolve 0 (Json (sample_page [''a1'', ''a2''] 1 1))) two_searches_pending))) = ''ab''"
proof -
  have len: "length (inflight two_searches_pending) = 2"
    using two_searches_pending_eval(2) by (metis length_map length_Cons list.size(3) numeral_2_eq_2)
  then have h: "0 < length (inflight two_searches_pending)" by simp
  have p0: "req_pageNum (inflight two_searches_pending ! 0) = 1"
    using two_searches_pending_eval(2) h by (metis nth_map nth_Cons_0)
  from response_applied_on_arrival [OF h, of "sample_page [''a1'', ''a2''] 1 1"] p0
  have "properties (screen
          (step (Resolve 0 (Json (sample_page [''a1'', ''a2''] 1 1))) two_searches_pending)) =
        data_properties (sample_page [''a1'', ''a2''] 1 1)"
    and "filters (screen
          (step (Resolve 0 (Json (sample_page [''a1'', ''a2''] 1 1))) two_searches_pending)) =
        filters (screen two_searches_pending)"
    by simp_all
  with h show ?thesis
    by (simp add: two_searches_pending_eval(3) sample_page_def sample_item_def)
qed

text \<open>
  The claim C1 fails: after the search text changes to \<open>a\<close> and then to \<open>ab\<close>, two
  first-page requests are in flight and the one for \<open>ab\<close> is the latest issued. When the
  response for \<open>ab\<close> arrives first and the response for \<open>a\<close> after it, the superseded
  response is not discarded: the list shows the items for \<open>a\<close> under the filter \<open>ab\<close>.
\<close>

theorem stale_response_overwrites_counterexample:
  "map search (map req_newFilters (inflight two_searches_pending)) = [''a'', ''ab'']
   \<and> search (req_newFilters (last (fetches (trace two_searches_pending)))) = ''ab''
   \<and> search (filters (screen
        (run [Resolve 1 (Json (sample_page [''ab1''] 1 1)),
              Resolve 0 (Json (sample_page [''a1'', ''a2''] 1 1))] two_searches_pending))) = ''ab''
   \<and> map prop_id (properties (screen
        (run [Resolve 1 (Json (sample_page [''ab1''] 1 1)),
              Resolve 0 (Json (sample_page [''a1'', ''a2''] 1 1))] two_searches_pending))) =
      [''a1'', ''a2'']"
  by (simp add: two_searches_pending_def loaded_system_def machine_defs scenario_defs)

text \<open>
  C2, as the code has it. A failed request (a rejected fetch or a response that is not ok)
  logs the error, raises the alert \<open>Failed to load properties. Please try again.\<close> and
  clears \<open>loading\<close> and \<open>refreshing\<close>; nothing else changes, for a first page as for a next
  page: the accumulated list, the total, \<open>hasMore\<close>, the page cursor and the filters stay.
  There is no error state. The retry action, \<open>handleRefresh\<close>, issues a first-page request
  for the filters on screen.
\<close>

theorem failed_fetch_keeps_list:
  "fetchProperties_resume r Rejected s =
     (s\<lparr>loading := False, refreshing := False\<rparr>,
      [ConsoleError ''Error fetching properties:'',
       Alert ''Error'' ''Failed to load properties. Please try again.''])
   \<and> fetchProperties_resume r (NotOk status) s =
     (s\<lparr>loading := False, refreshing := False\<rparr>,
      [ConsoleError ''Error fetching properties:'',
       Alert ''Error'' ''Failed to load properties. Please try again.''])
   \<and> properties (fst (fetchProperties_resume r Rejected s)) = properties s
   \<and> properties (fst (fetchProperties_resume r (NotOk status) s)) = properties s
   \<and> snd (handleRefresh s) =
       [Fetch \<lparr>req_pageNum = 1, req_newFilters = filters s, req_isRefresh = True\<rparr>]"
  by (simp add: fetchProperties_resume_def fetchProperties_finally_def handleRefresh_def
      fetchProperties_start_def)

text \<open>
  The claim C2 fails for a first page: the loaded screen shows \<open>p1\<close>; the search text
  changes, the first-page request for it fails, and \<open>p1\<close> is still displayed.
\<close>

theorem failed_first_page_keeps_results_counterexample:
  "map req_pageNum (inflight (step (ChangeFilter (Set_search ''x'')) loaded_system)) = [1]
   \<and> map prop_id (properties (screen
        (run [ChangeFilter (Set_search ''x''), Resolve 0 Rejected] loaded_system))) = [''p1'']
   \<and> map prop_id (properties (screen
        (run [Refresh, Resolve 0 (NotOk 500)] loaded_system))) = [''p1'']"
  by (simp add: loaded_system_def machine_defs scenario_defs)

lemma quiescent_run:
  assumes "\<not> hasMore (screen sys)" "inflight sys = []" "list_all scroll_or_response es"
  shows "run es sys = sys"
  using assms(3)
proof (induction es)
  case Nil
  then show ?case by simp
next
  case (Cons e es)
  from Cons.prems have e: "scroll_or_response e" and es: "list_all scroll_or_response es"
    by simp_all
  have "step e sys = sys"
  proof (cases e)
    case EndReached
    then show ?thesis using assms(1) by (simp add: load_more_blocked)
  next
    case (Resolve i res)
    then show ?thesis using assms(2) by (simp add: step.simps)
  qed (use e in simp_all)
  with Cons.IH [OF es] show ?case by simp
qed

lemma page3_before_page2_eval:
  "hasMore (screen page3_before_page2) = False"
  "map req_pageNum (inflight page3_before_page2) = [2]"
  "map prop_id (properties (screen page3_before_page2)) = [''p1'', ''p3'']"
  by (simp_all add: page3_before_page2_def loaded_system_def machine_defs scenario_defs)

text \<open>
  C6, as the code has it. After every successful response \<open>hasMore\<close> is true exactly when
  the requested page number is below the \<open>total_pages\<close> of that response. While \<open>hasMore\<close>
  is false a load-more is a no-op; and once \<open>hasMore\<close> is false with no request in
  flight, load-more triggers (and nothing else can arrive) leave the state as it is, until
  a filter change or a refresh.
\<close>

theorem hasMore_halts_when_quiescent:
  "(hasMore (fst (fetchProperties_resume r (Json d) s)) \<longleftrightarrow> req_pageNum r < data_total_pages d)
   \<and> (\<not> hasMore (screen sys) \<longrightarrow> step EndReached sys = sys)
   \<and> (\<not> hasMore (screen sys) \<and> inflight sys = [] \<and> list_all scroll_or_response es \<longrightarrow>
        run es sys = sys)"
proof (intro conjI impI)
  show "hasMore (fst (fetchProperties_resume r (Json d) s)) \<longleftrightarrow> req_pageNum r < data_total_pages d"
    by (simp add: fetchProperties_resume_def fetchProperties_finally_def)
next
  assume "\<not> hasMore (screen sys)"
  then show "step EndReached sys = sys" by (simp add: load_more_blocked)
next
  assume "\<not> hasMore (screen sys) \<and> inflight sys = [] \<and> list_all scroll_or_response es"
  then show "run es sys = sys" by (simp add: quiescent_run)
qed

theorem hasMore_halts_when_quiescent_witness:
  "\<not> hasMore (screen last_page_system) \<and> inflight last_page_system = []
   \<and> list_all scroll_or_response [EndReached, Resolve 0 Rejected, EndReached]
   \<and> step EndReached last_page_system = last_page_system
   \<and> run [EndReached, Resolve 0 Rejected, EndReached] last_page_system = last_page_system"
proof -
  have h: "\<not> hasMore (screen last_page_system)" "inflight last_page_system = []"
    "list_all scroll_or_response [EndReached, Resolve 0 Rejected, EndReached]"
    by (simp_all add: last_page_system_eval)
  from h hasMore_halts_when_quiescent
           [of _ _ _ last_page_system "[EndReached, Resolve 0 Rejected, EndReached]"]
  show ?thesis by (intro conjI) blast+
qed

text \<open>
  The claim C6 fails when responses are out of order: load-more is triggered twice in a
  row (pages 2 and 3 of 3), the response for page 3 arrives first and sets \<open>hasMore\<close> to
  false, then the response for page 2 sets it back to true, and the next load-more
  requests page 4, with no filter change and no refresh in between.
\<close>

theorem late_response_reopens_pagination_counterexample:
  "hasMore (screen page3_before_page2) = False
   \<and> list_all scroll_or_response [Resolve 0 (Json (sample_page [''p2''] 2 3)), EndReached]
   \<and> hasMore (screen (step (Resolve 0 (Json (sample_page [''p2''] 2 3))) page3_before_page2)) = True
   \<and> map req_pageNum (inflight
        (run [Resolve 0 (Json (sample_page [''p2''] 2 3)), EndReached] page3_before_page2)) = [4]"
  by (simp add: page3_before_page2_def loaded_system_def machine_defs scenario_defs)

text \<open>
  C7, as the code has it. While \<open>loading\<close> is set, which a first-page fetch that is not a
  refresh does when it starts, a load-more trigger is ignored and issues no request. A
  refresh has no guard: it always issues a first-page request for the filters on screen.
\<close>

theorem loading_blocks_load_more:
  "(loading (screen sys) \<longrightarrow> step EndReached sys = sys)
   \<and> loading (screen (step (ChangeFilter c) sys))
   \<and> inflight (step Refresh sys) =
       inflight sys @ [\<lparr>req_pageNum = 1, req_newFilters = filters (screen sys),
                         req_isRefresh = True\<rparr>]"
proof (intro conjI impI)
  assume "loading (screen sys)"
  then show "step EndReached sys = sys" by (simp add: load_more_blocked)
next
  show "loading (screen (step (ChangeFilter c) sys))"
    by (simp add: machine_defs)
next
  show "inflight (step Refresh sys) =
       inflight sys @ [\<lparr>req_pageNum = 1, req_newFilters = filters (screen sys),
                         req_isRefresh = True\<rparr>]"
    by (simp add: machine_defs)
qed

theorem loading_blocks_load_more_witness:
  "loading (screen (step (ChangeFilter (Set_search ''a'')) loaded_system))
   \<and> step EndReached (step (ChangeFilter (Set_search ''a'')) loaded_system) =
       step (ChangeFilter (Set_search ''a'')) loaded_system"
proof -
  have h: "loading (screen (step (ChangeFilter (Set_search ''a'')) loaded_system))"
    by (simp add: machine_defs)
  from h loading_blocks_load_more [of "step (ChangeFilter (Set_search ''a'')) loaded_system"]
  show ?thesis by blast
qed

text \<open>
  The claim C7 fails for both purposes: a second refresh while the first is in flight
  issues a second request, and a second load-more while the request for page 2 is in
  flight issues a request for page 3.
\<close>

theorem reentrant_triggers_fetch_again_counterexample:
  "refreshing (screen (step Refresh loaded_system)) = True
   \<and> map req_isRefresh (inflight (run [Refresh, Refresh] loaded_system)) = [True, True]
   \<and> map req_pageNum (inflight (run [Refresh, Refresh] loaded_system)) = [1, 1]
   \<and> map req_pageNum (inflight (step EndReached loaded_system)) = [2]
   \<and> map req_pageNum (inflight (run [EndReached, EndReached] loaded_system)) = [2, 3]"
  by (simp add: loaded_system_def machine_defs scenario_defs)

end
